theory Spec2Isabelle
  imports Main "HOL-Library.Word"
begin

section \<open>Values of a request\<close>

text \<open>
  The handlers of \<^verbatim>\<open>routes/messages.js\<close> read the fields of a JSON body without
  checking their types. A field is modelled as a scalar JavaScript value; a key that is
  absent from the body reads as \<open>JUndefined\<close>. Numbers are modelled as integers: the
  handlers only test them for being zero. Arrays and nested objects are outside the model.
\<close>

datatype jsval = JUndefined | JNull | JBool bool | JNum int | JStr string

text \<open>JavaScript's ToBoolean, used by \<^verbatim>\<open>!x\<close> and \<^verbatim>\<open>x || y\<close>.\<close>

fun truthy :: "jsval \<Rightarrow> bool" where
  "truthy JUndefined = False"
| "truthy JNull = False"
| "truthy (JBool b) = b"
| "truthy (JNum n) = (n \<noteq> 0)"
| "truthy (JStr s) = (s \<noteq> [])"

text \<open>\<^verbatim>\<open>a || b\<close>: the left operand when it is truthy, the right one otherwise.\<close>

definition js_or :: "jsval \<Rightarrow> jsval \<Rightarrow> jsval" where
  "js_or a b = (if truthy a then a else b)"

text \<open>A destructuring default \<^verbatim>\<open>{ x = d }\<close> applies only when the field is undefined.\<close>

definition js_default :: "jsval \<Rightarrow> jsval \<Rightarrow> jsval" where
  "js_default v d = (if v = JUndefined then d else v)"

section \<open>The message collection\<close>

text \<open>
  Modelled from the spec: the schema \<^verbatim>\<open>models/Message\<close> is not among the sources. A
  Message Record has the fields \<open>id, fromCode, toCode (nullable), content, type,
  priority, timestamp, isRead, readAt\<close>. The fields copied from the request keep the
  value the handler gave them; \<open>readAt\<close> is unset until the message is marked read.
  Dates are milliseconds since the epoch.
\<close>

record message =
  msg_id :: nat
  fromCode :: jsval
  toCode :: jsval
  content :: jsval
  msg_type :: jsval
  priority :: jsval
  timestamp :: int
  isRead :: bool
  readAt :: "int option"

text \<open>
  What a handler gets from outside for one request: the identifier that
  \<^verbatim>\<open>new Message\<close> generates, the value of \<^verbatim>\<open>new Date()\<close>, and whether the store
  serves the call it awaits (a rejected promise, for whatever reason, is \<open>db_ok = False\<close>).
\<close>

record env =
  new_id :: nat
  now :: int
  db_ok :: bool

text \<open>
  \<^verbatim>\<open>newMessage.save()\<close>: the collection is kept in insertion order. The store rejects
  a document whose identifier is already taken (the unique index on \<^verbatim>\<open>_id\<close>).
\<close>

definition save :: "env \<Rightarrow> message list \<Rightarrow> message \<Rightarrow> message list option" where
  "save e db m =
     (if db_ok e \<and> msg_id m \<notin> set (map msg_id db) then Some (db @ [m]) else None)"

text \<open>
  \<^verbatim>\<open>Message.findByIdAndUpdate(id, upd)\<close>: the first document with that identifier is
  updated; when there is none, nothing changes and nothing is raised.
\<close>

fun findByIdAndUpdate :: "nat \<Rightarrow> (message \<Rightarrow> message) \<Rightarrow> message list \<Rightarrow> message list" where
  "findByIdAndUpdate i f [] = []"
| "findByIdAndUpdate i f (m # ms) =
     (if msg_id m = i then f m # ms else m # findByIdAndUpdate i f ms)"

text \<open>\<^verbatim>\<open>Message.find({ $or: [{ toCode: agentCode }, { type: 'broadcast' }] })\<close>.\<close>

definition inbox_match :: "string \<Rightarrow> message \<Rightarrow> bool" where
  "inbox_match agentCode m = (toCode m = JStr agentCode \<or> msg_type m = JStr ''broadcast'')"

text \<open>\<^verbatim>\<open>.sort({ timestamp: -1 })\<close>: descending by timestamp.\<close>

definition sort_desc :: "message list \<Rightarrow> message list" where
  "sort_desc ms = sort_key (\<lambda>m. - timestamp m) ms"

section \<open>Parsing the limit\<close>

text \<open>
  A JavaScript string is a sequence of UTF-16 code units; the query parameter
  \<^verbatim>\<open>limit\<close> is modelled so, since \<^verbatim>\<open>parseInt\<close> looks at its characters. A
  JavaScript number that \<^verbatim>\<open>parseInt\<close> can return is NaN, an integer that a double
  represents (minus zero is \<open>Num 0\<close>: both zeros are falsy), or an infinity.
\<close>

type_synonym code_unit = "16 word"

type_synonym js_string = "code_unit list"

datatype jsnum = NaN | Num int | PosInfinity | NegInfinity

text \<open>
  The characters that \<^verbatim>\<open>parseInt\<close> skips at the start of its argument: the white
  space of ECMAScript (TAB, VT, FF, the byte order mark U+FEFF and the space separators
  of Unicode: U+0020, U+00A0, U+1680, U+2000 to U+200A, U+202F, U+205F, U+3000) and its
  line terminators (LF, CR, U+2028, U+2029).
\<close>

definition is_space :: "code_unit \<Rightarrow> bool" where
  "is_space c =
     (c \<in> set [0x0009, 0x000A, 0x000B, 0x000C, 0x000D, 0x0020, 0x00A0, 0x1680,
               0x2028, 0x2029, 0x202F, 0x205F, 0x3000, 0xFEFF]
      \<or> (0x2000 \<le> c \<and> c \<le> 0x200A))"

text \<open>The value of a digit \<^verbatim>\<open>0-9\<close>, \<^verbatim>\<open>a-z\<close>, \<^verbatim>\<open>A-Z\<close> when it is below the radix.\<close>

definition digit_of :: "nat \<Rightarrow> code_unit \<Rightarrow> nat option" where
  "digit_of radix c =
     (let n = unat c;
          d = (if 48 \<le> n \<and> n \<le> 57 then Some (n - 48)
               else if 97 \<le> n \<and> n \<le> 122 then Some (n - 87)
               else if 65 \<le> n \<and> n \<le> 90 then Some (n - 55)
               else None)
      in case d of None \<Rightarrow> None | Some v \<Rightarrow> if v < radix then Some v else None)"

text \<open>The longest run of digits, converted; \<open>None\<close> when there is no digit.\<close>

fun parse_digits :: "nat \<Rightarrow> js_string \<Rightarrow> nat option \<Rightarrow> nat option" where
  "parse_digits radix [] acc = acc"
| "parse_digits radix (c # cs) acc =
     (case digit_of radix c of
        None \<Rightarrow> acc
      | Some d \<Rightarrow> parse_digits radix cs (Some (radix * (case acc of None \<Rightarrow> 0 | Some a \<Rightarrow> a) + d)))"

text \<open>A leading \<^verbatim>\<open>-\<close> or \<^verbatim>\<open>+\<close>.\<close>

fun strip_sign :: "js_string \<Rightarrow> int \<times> js_string" where
  "strip_sign [] = (1, [])"
| "strip_sign (c # cs) =
     (if c = 0x2D then (- 1, cs) else if c = 0x2B then (1, cs) else (1, c # cs))"

text \<open>A leading \<^verbatim>\<open>0x\<close> or \<^verbatim>\<open>0X\<close> selects radix 16; the radix is 10 otherwise.\<close>

fun strip_prefix :: "js_string \<Rightarrow> nat \<times> js_string" where
  "strip_prefix (a # b # cs) =
     (if a = 0x30 \<and> (b = 0x78 \<or> b = 0x58) then (16, cs) else (10, a # b # cs))"
| "strip_prefix cs = (10, cs)"

text \<open>The number of binary digits of a natural number.\<close>

fun bit_length :: "nat \<Rightarrow> nat" where
  "bit_length n = (if n = 0 then 0 else Suc (bit_length (n div 2)))"

text \<open>
  The double nearest to a natural number, ties to the even significand: numbers of at
  most 53 binary digits are exact, longer ones keep their 53 leading digits, rounded.
  \<open>None\<close> when the result is beyond the largest double, which is an infinity.
\<close>

definition round_double :: "nat \<Rightarrow> nat option" where
  "round_double n =
     (let k = bit_length n in
      if k \<le> 53 then Some n
      else
        (let sh = k - 53;
             q = n div 2 ^ sh;
             r = n mod 2 ^ sh;
             half = 2 ^ (sh - 1);
             q' = (if half < r \<or> (r = half \<and> odd q) then q + 1 else q);
             v = q' * 2 ^ sh
         in if 2 ^ 1024 \<le> v then None else Some v))"

text \<open>
  \<^verbatim>\<open>parseInt(s)\<close> without a radix: leading white space is skipped, a sign is read,
  a prefix \<^verbatim>\<open>0x\<close> selects radix 16, the longest run of digits is converted, and the
  result is the double for that integer. With no digit the result is NaN; so it is for an
  absent parameter (\<open>None\<close>), which reads as the string \<^verbatim>\<open>undefined\<close>.
\<close>

definition parseInt :: "js_string option \<Rightarrow> jsnum" where
  "parseInt q =
     (case q of
        None \<Rightarrow> NaN
      | Some s \<Rightarrow>
          (let (sign, s1) = strip_sign (dropWhile is_space s);
               (radix, s2) = strip_prefix s1
           in case parse_digits radix s2 None of
                None \<Rightarrow> NaN
              | Some n \<Rightarrow>
                  (case round_double n of
                     None \<Rightarrow> if sign < 0 then NegInfinity else PosInfinity
                   | Some v \<Rightarrow> Num (sign * int v))))"

text \<open>\<^verbatim>\<open>parseInt(req.query.limit) || 50\<close>: NaN and zero are falsy.\<close>

definition limit_of :: "js_string option \<Rightarrow> jsnum" where
  "limit_of q = (case parseInt q of NaN \<Rightarrow> Num 50 | Num n \<Rightarrow> if n = 0 then Num 50 else Num n
                 | PosInfinity \<Rightarrow> PosInfinity | NegInfinity \<Rightarrow> NegInfinity)"

text \<open>
  \<^verbatim>\<open>.limit(n)\<close> as the database driver applies it: zero means no limit, and a
  negative number limits to its absolute value. An infinite limit cuts nothing off here;
  a store that refuses the limit it is given fails the call, which is \<open>db_ok = False\<close>.
\<close>

definition limit_docs :: "jsnum \<Rightarrow> message list \<Rightarrow> message list" where
  "limit_docs l ms =
     (case l of
        Num n \<Rightarrow> if n = 0 then ms else take (nat \<bar>n\<bar>) ms
      | _ \<Rightarrow> ms)"

section \<open>The socket server\<close>

text \<open>
  Modelled from the spec: the socket handler that registers connections is not among the
  sources. A connection has one role, \<open>agent\<close> or \<open>supervisor\<close>, once it has identified
  itself (\<open>None\<close> before that), and is subscribed to a set of rooms. The server
  \<^verbatim>\<open>io\<close> is the list of the sockets connected at the moment.
\<close>

datatype role = Agent | Supervisor

record socket =
  sid :: nat
  role :: "role option"
  rooms :: "jsval list"

datatype event = new_broadcast_message | new_direct_message

text \<open>One delivery: the socket it went to, the event name and the payload.\<close>

type_synonym push = "nat \<times> event \<times> message"

text \<open>\<^verbatim>\<open>io.emit(ev, m)\<close>: to every connected socket.\<close>

definition io_emit :: "socket list \<Rightarrow> event \<Rightarrow> message \<Rightarrow> push list" where
  "io_emit io ev m = map (\<lambda>s. (sid s, ev, m)) io"

text \<open>\<^verbatim>\<open>io.to(room).emit(ev, m)\<close>: to the connected sockets that are in the room.\<close>

definition io_to_emit :: "socket list \<Rightarrow> jsval \<Rightarrow> event \<Rightarrow> message \<Rightarrow> push list" where
  "io_to_emit io room ev m = map (\<lambda>s. (sid s, ev, m)) (filter (\<lambda>s. room \<in> set (rooms s)) io)"

section \<open>The handlers\<close>

record send_body =
  body_fromCode :: jsval
  body_toCode :: jsval
  body_message :: jsval
  body_content :: jsval
  body_type :: jsval
  body_priority :: jsval

datatype response =
    SendOk nat
  | Messages "message list"
  | Success
  | Error nat string

text \<open>The text of a send request: \<^verbatim>\<open>message || content\<close>.\<close>

definition text_of :: "send_body \<Rightarrow> jsval" where
  "text_of b = js_or (body_message b) (body_content b)"

text \<open>The type of a send request, with its default \<^verbatim>\<open>'direct'\<close>.\<close>

definition type_of :: "send_body \<Rightarrow> jsval" where
  "type_of b = js_default (body_type b) (JStr ''direct'')"

text \<open>The document that \<^verbatim>\<open>new Message({...})\<close> builds in \<^verbatim>\<open>POST /send\<close>.\<close>

definition newMessage :: "env \<Rightarrow> send_body \<Rightarrow> message" where
  "newMessage e b =
     \<lparr> msg_id = new_id e,
       fromCode = body_fromCode b,
       toCode = (if type_of b = JStr ''broadcast'' then JNull else body_toCode b),
       content = text_of b,
       msg_type = type_of b,
       priority = js_default (body_priority b) (JStr ''normal''),
       timestamp = now e,
       isRead = False,
       readAt = None \<rparr>"

text \<open>
  \<^verbatim>\<open>router.post('/send', ...)\<close>. The result is the response, the collection afterwards
  and the deliveries made. \<open>io\<close> is \<^verbatim>\<open>req.app.get('io')\<close>, \<open>None\<close> when it is not set.
\<close>

definition post_send ::
  "env \<Rightarrow> socket list option \<Rightarrow> message list \<Rightarrow> send_body \<Rightarrow> response \<times> message list \<times> push list" where
  "post_send e io db b =
     (if \<not> truthy (body_fromCode b) \<or> \<not> truthy (text_of b)
      then (Error 400 ''From code and message are required'', db, [])
      else
        (case save e db (newMessage e b) of
           None \<Rightarrow> (Error 500 ''Failed to send message'', db, [])
         | Some db' \<Rightarrow>
             (SendOk (msg_id (newMessage e b)), db',
              (case io of
                 None \<Rightarrow> []
               | Some srv \<Rightarrow>
                   if type_of b = JStr ''broadcast''
                   then io_emit srv new_broadcast_message (newMessage e b)
                   else io_to_emit srv (body_toCode b) new_direct_message (newMessage e b)))))"

text \<open>\<^verbatim>\<open>router.get('/agent/:agentCode', ...)\<close>.\<close>

definition get_agent ::
  "env \<Rightarrow> message list \<Rightarrow> string \<Rightarrow> js_string option \<Rightarrow> response \<times> message list \<times> push list" where
  "get_agent e db agentCode q =
     (if db_ok e
      then (Messages (limit_docs (limit_of q) (sort_desc (filter (inbox_match agentCode) db))), db, [])
      else (Error 500 ''Failed to get messages'', db, []))"

text \<open>\<^verbatim>\<open>router.put('/:messageId/read', ...)\<close>.\<close>

definition mark_read :: "env \<Rightarrow> message \<Rightarrow> message" where
  "mark_read e m = m\<lparr>isRead := True, readAt := Some (now e)\<rparr>"

definition put_read ::
  "env \<Rightarrow> message list \<Rightarrow> nat \<Rightarrow> response \<times> message list \<times> push list" where
  "put_read e db messageId =
     (if db_ok e
      then (Success, findByIdAndUpdate messageId (mark_read e) db, [])
      else (Error 500 ''Failed to mark as read'', db, []))"

text \<open>The three routes of the router.\<close>

datatype request =
    PostSend send_body
  | GetAgent string "js_string option"
  | PutRead nat

fun handle ::
  "env \<Rightarrow> socket list option \<Rightarrow> message list \<Rightarrow> request \<Rightarrow> response \<times> message list \<times> push list" where
  "handle e io db (PostSend b) = post_send e io db b"
| "handle e io db (GetAgent agentCode q) = get_agent e db agentCode q"
| "handle e io db (PutRead messageId) = put_read e db messageId"

section \<open>The router in the running server\<close>

text \<open>
  Modelled from the spec: the socket handler, where connections open, identify
  themselves, join rooms and close, is not among the sources. The state of the server as
  far as the router is concerned is the sockets connected now, the message collection, and
  every delivery made so far, oldest first. The input \<open>Sockets\<close> replaces the set of
  connected sockets by any other, which covers every registration and every disconnect;
  the input \<open>Http\<close> is one request to the router. \<^verbatim>\<open>server.js\<close> always sets
  \<^verbatim>\<open>io\<close> on the application, so the router sees the connected sockets.
\<close>

record sys =
  sockets :: "socket list"
  messages :: "message list"
  delivered :: "push list"

datatype input = Sockets "socket list" | Http env request

definition init_sys :: sys where
  "init_sys = \<lparr> sockets = [], messages = [], delivered = [] \<rparr>"

fun sys_step :: "sys \<Rightarrow> input \<Rightarrow> sys" where
  "sys_step s (Sockets io) = s\<lparr>sockets := io\<rparr>"
| "sys_step s (Http e r) =
     (case handle e (Some (sockets s)) (messages s) r of
        (resp, db', ps) \<Rightarrow> s\<lparr>messages := db', delivered := delivered s @ ps\<rparr>)"

definition run :: "sys \<Rightarrow> input list \<Rightarrow> sys" where
  "run s evs = foldl sys_step s evs"

section \<open>Predicates of the properties\<close>

text \<open>Every stored broadcast has no recipient code.\<close>

definition broadcast_inv :: "message list \<Rightarrow> bool" where
  "broadcast_inv db = list_all (\<lambda>m. msg_type m \<noteq> JStr ''broadcast'' \<or> toCode m = JNull) db"

text \<open>Two versions of a record that differ at most in \<open>isRead\<close> and \<open>readAt\<close>.\<close>

definition same_but_read :: "message \<Rightarrow> message \<Rightarrow> bool" where
  "same_but_read m m' =
     (msg_id m' = msg_id m \<and> fromCode m' = fromCode m \<and> toCode m' = toCode m \<and>
      content m' = content m \<and> msg_type m' = msg_type m \<and> priority m' = priority m \<and>
      timestamp m' = timestamp m)"

text \<open>
  A later state of the collection keeps an earlier one: every record of the earlier
  state is still there, at its place, changed at most in \<open>isRead\<close> and \<open>readAt\<close>.
\<close>

definition kept :: "message list \<Rightarrow> message list \<Rightarrow> bool" where
  "kept db db' = (length db \<le> length db' \<and> list_all2 same_but_read db (take (length db) db'))"

text \<open>Every delivery made so far carries a record whose identifier is in the collection.\<close>

definition log_inv :: "sys \<Rightarrow> bool" where
  "log_inv s = list_all (\<lambda>p. msg_id (snd (snd p)) \<in> set (map msg_id (messages s))) (delivered s)"

text \<open>
  The target set of a broadcast as the specification words it: the connections with
  the role \<open>agent\<close>. It is compared with what \<open>post_send\<close> does.
\<close>

definition spec_broadcast_targets :: "socket list \<Rightarrow> nat list" where
  "spec_broadcast_targets io = map sid (filter (\<lambda>c. role c = Some Agent) io)"

section \<open>Example inputs\<close>

definition ex_env :: env where
  "ex_env = \<lparr> new_id = 7, now = 1000, db_ok = True \<rparr>"

definition ex_env_later :: env where
  "ex_env_later = \<lparr> new_id = 8, now = 2000, db_ok = True \<rparr>"

definition ex_env_down :: env where
  "ex_env_down = \<lparr> new_id = 7, now = 1000, db_ok = False \<rparr>"

definition ex_direct :: send_body where
  "ex_direct = \<lparr> body_fromCode = JStr ''A100'', body_toCode = JStr ''A200'',
       body_message = JUndefined, body_content = JStr ''break soon'',
       body_type = JStr ''direct'', body_priority = JUndefined \<rparr>"

definition ex_untyped :: send_body where
  "ex_untyped = \<lparr> body_fromCode = JStr ''A100'', body_toCode = JStr ''A200'',
       body_message = JStr ''break soon'', body_content = JUndefined,
       body_type = JUndefined, body_priority = JUndefined \<rparr>"

definition ex_broadcast :: send_body where
  "ex_broadcast = \<lparr> body_fromCode = JStr ''A100'', body_toCode = JStr ''A200'',
       body_message = JStr ''shift ending'', body_content = JUndefined,
       body_type = JStr ''broadcast'', body_priority = JUndefined \<rparr>"

definition ex_anonymous :: send_body where
  "ex_anonymous = \<lparr> body_fromCode = JStr [], body_toCode = JStr ''A200'',
       body_message = JStr ''hello'', body_content = JUndefined,
       body_type = JStr ''direct'', body_priority = JUndefined \<rparr>"

definition ex_agent :: socket where
  "ex_agent = \<lparr> sid = 1, role = Some Agent, rooms = [JStr ''A300''] \<rparr>"

definition ex_recipient :: socket where
  "ex_recipient = \<lparr> sid = 3, role = Some Agent, rooms = [JStr ''A200''] \<rparr>"

definition ex_supervisor :: socket where
  "ex_supervisor = \<lparr> sid = 2, role = Some Supervisor, rooms = [JStr ''S1''] \<rparr>"

definition ex_stored :: message where
  "ex_stored = \<lparr> msg_id = 5, fromCode = JStr ''A100'', toCode = JStr ''A200'',
       content = JStr ''break soon'', msg_type = JStr ''direct'', priority = JStr ''normal'',
       timestamp = 500, isRead = False, readAt = None \<rparr>"

definition ex_older :: message where
  "ex_older = \<lparr> msg_id = 4, fromCode = JStr ''S1'', toCode = JNull,
       content = JStr ''shift ending'', msg_type = JStr ''broadcast'', priority = JStr ''high'',
       timestamp = 400, isRead = False, readAt = None \<rparr>"

section \<open>Facts about the store and the handlers\<close>

lemma newMessage_id: "msg_id (newMessage e b) = new_id e"
  by (simp add: newMessage_def)

lemma type_of_given: "body_type b = JStr t \<Longrightarrow> type_of b = JStr t"
  by (simp add: type_of_def js_default_def)

lemma type_of_omitted: "body_type b = JUndefined \<Longrightarrow> type_of b = JStr ''direct''"
  by (simp add: type_of_def js_default_def)

lemma post_send_accepted:
  assumes "truthy (body_fromCode b)" and "truthy (text_of b)"
    and "db_ok e" and "new_id e \<notin> set (map msg_id db)"
  shows "post_send e (Some srv) db b =
     (SendOk (new_id e), db @ [newMessage e b],
      if type_of b = JStr ''broadcast''
      then io_emit srv new_broadcast_message (newMessage e b)
      else io_to_emit srv (body_toCode b) new_direct_message (newMessage e b))"
  using assms by (simp add: post_send_def save_def newMessage_id)

lemma post_send_store:
  "fst (snd (post_send e io db b)) = db \<or> fst (snd (post_send e io db b)) = db @ [newMessage e b]"
  by (auto simp: post_send_def save_def split: option.splits)

lemma findByIdAndUpdate_ids:
  "(\<And>m. msg_id (f m) = msg_id m) \<Longrightarrow> map msg_id (findByIdAndUpdate i f db) = map msg_id db"
  by (induction db) auto

lemma findByIdAndUpdate_id_set:
  "(\<And>m. msg_id (f m) = msg_id m) \<Longrightarrow> msg_id ` set (findByIdAndUpdate i f db) = msg_id ` set db"
  using findByIdAndUpdate_ids [of f i db] by (metis set_map)

lemma findByIdAndUpdate_length: "length (findByIdAndUpdate i f db) = length db"
  by (induction db) auto

lemma findByIdAndUpdate_rel:
  "(\<And>m. R m (f m)) \<Longrightarrow> (\<And>m. R m m) \<Longrightarrow> list_all2 R db (findByIdAndUpdate i f db)"
  by (induction db) (auto simp: list_all2_refl)

lemma findByIdAndUpdate_inv:
  "(\<And>m. P m \<Longrightarrow> P (f m)) \<Longrightarrow> list_all P db \<Longrightarrow> list_all P (findByIdAndUpdate i f db)"
  by (induction db) auto

lemma findByIdAndUpdate_twice:
  "(\<And>m. msg_id (f m) = msg_id m) \<Longrightarrow> (\<And>m. g (f m) = g m) \<Longrightarrow>
   findByIdAndUpdate i g (findByIdAndUpdate i f db) = findByIdAndUpdate i g db"
  by (induction db) auto

lemma findByIdAndUpdate_find:
  "find (\<lambda>x. msg_id x = i) db = Some m \<Longrightarrow> msg_id (f m) = i \<Longrightarrow>
   find (\<lambda>x. msg_id x = i) (findByIdAndUpdate i f db) = Some (f m)"
  by (induction db) (auto split: if_splits)

lemma mark_read_id: "msg_id (mark_read e m) = msg_id m"
  by (simp add: mark_read_def)

lemma mark_read_twice: "mark_read e2 (mark_read e1 m) = mark_read e2 m"
  by (simp add: mark_read_def)

subsection \<open>Records are kept\<close>

lemma handle_frame:
  "list_all2 same_but_read db (take (length db) (fst (snd (handle e io db r))))"
proof (cases r)
  case (PostSend b)
  then show ?thesis
    by (auto simp: post_send_def save_def same_but_read_def list_all2_refl split: option.splits)
next
  case (GetAgent a q)
  then show ?thesis by (simp add: get_agent_def same_but_read_def list_all2_refl)
next
  case (PutRead i)
  have "list_all2 same_but_read db (findByIdAndUpdate i (mark_read e) db)"
    by (rule findByIdAndUpdate_rel) (simp_all add: same_but_read_def mark_read_def)
  with PutRead show ?thesis
    by (simp add: put_read_def findByIdAndUpdate_length same_but_read_def list_all2_refl)
qed

lemma handle_length: "length db \<le> length (fst (snd (handle e io db r)))"
  by (cases r)
     (auto simp: post_send_def save_def get_agent_def put_read_def findByIdAndUpdate_length
           split: option.splits)

lemma kept_refl: "kept db db"
  by (simp add: kept_def list_all2_refl same_but_read_def)

lemma kept_trans:
  assumes "kept a b" and "kept b c"
  shows "kept a c"
proof -
  have la: "length a \<le> length b" and lb: "length b \<le> length c"
    using assms by (simp_all add: kept_def)
  have "list_all2 same_but_read b (take (length b) c)"
    using assms(2) by (simp add: kept_def)
  then have "list_all2 same_but_read (take (length a) b) (take (length a) (take (length b) c))"
    by (rule list_all2_takeI)
  then have bc: "list_all2 same_but_read (take (length a) b) (take (length a) c)"
    using la by (simp add: min_def)
  have ab: "list_all2 same_but_read a (take (length a) b)"
    using assms(1) by (simp add: kept_def)
  have tr: "\<And>x y z. same_but_read x y \<Longrightarrow> same_but_read y z \<Longrightarrow> same_but_read x z"
    by (simp add: same_but_read_def)
  have "list_all2 same_but_read a (take (length a) c)"
    using tr ab bc by (rule list_all2_trans)
  then show ?thesis using la lb by (simp add: kept_def)
qed

subsection \<open>Runs of the server\<close>

lemma run_Nil: "run s [] = s"
  by (simp add: run_def)

lemma run_Cons: "run s (ev # evs) = run (sys_step s ev) evs"
  by (simp add: run_def)

lemma run_append: "run s (xs @ ys) = run (run s xs) ys"
  by (simp add: run_def)

lemma sys_step_Http:
  "sys_step s (Http e r) =
     s\<lparr>messages := fst (snd (handle e (Some (sockets s)) (messages s) r)),
       delivered := delivered s @ snd (snd (handle e (Some (sockets s)) (messages s) r))\<rparr>"
  by (simp add: case_prod_beta)

lemma kept_step: "kept (messages s) (messages (sys_step s ev))"
proof (cases ev)
  case (Sockets io)
  then show ?thesis by (simp add: kept_refl)
next
  case (Http e r)
  then show ?thesis
    using handle_frame [of "messages s" e "Some (sockets s)" r]
      handle_length [of "messages s" e "Some (sockets s)" r]
    by (simp add: kept_def case_prod_beta)
qed

lemma kept_run: "kept (messages s) (messages (run s evs))"
proof (induction evs arbitrary: s)
  case Nil
  then show ?case by (simp add: run_Nil kept_refl)
next
  case (Cons ev evs)
  have "kept (messages s) (messages (sys_step s ev))" by (rule kept_step)
  moreover have "kept (messages (sys_step s ev)) (messages (run (sys_step s ev) evs))"
    by (rule Cons.IH)
  ultimately show ?case unfolding run_Cons by (rule kept_trans)
qed

subsection \<open>Identifiers and deliveries\<close>

lemma handle_ids_mono:
  "set (map msg_id db) \<subseteq> set (map msg_id (fst (snd (handle e io db r))))"
proof (cases r)
  case (PostSend b)
  then show ?thesis by (auto simp: post_send_def save_def split: option.splits)
next
  case (GetAgent a q)
  then show ?thesis by (simp add: get_agent_def)
next
  case (PutRead i)
  then show ?thesis by (simp add: put_read_def findByIdAndUpdate_id_set mark_read_id)
qed

lemma handle_pushes_fresh:
  "p \<in> set (snd (snd (handle e io db r))) \<Longrightarrow>
     msg_id (snd (snd p)) \<notin> set (map msg_id db) \<and>
     msg_id (snd (snd p)) \<in> set (map msg_id (fst (snd (handle e io db r))))"
proof (cases r)
  case (PostSend b)
  assume "p \<in> set (snd (snd (handle e io db r)))"
  with PostSend show ?thesis
    by (auto simp: post_send_def save_def io_emit_def io_to_emit_def newMessage_id
             split: option.splits if_splits)
next
  case (GetAgent a q)
  assume "p \<in> set (snd (snd (handle e io db r)))"
  with GetAgent show ?thesis by (simp add: get_agent_def split: if_splits)
next
  case (PutRead i)
  assume "p \<in> set (snd (snd (handle e io db r)))"
  with PutRead show ?thesis by (simp add: put_read_def split: if_splits)
qed

lemma log_inv_iff:
  "log_inv s \<longleftrightarrow> (\<forall>p\<in>set (delivered s). msg_id (snd (snd p)) \<in> set (map msg_id (messages s)))"
  by (simp add: log_inv_def list_all_iff)

lemma log_inv_step:
  assumes inv: "log_inv s"
  shows "log_inv (sys_step s ev)"
proof (cases ev)
  case (Sockets io)
  with inv show ?thesis by (simp add: log_inv_iff)
next
  case (Http e r)
  let ?h = "handle e (Some (sockets s)) (messages s) r"
  have "msg_id (snd (snd p)) \<in> set (map msg_id (fst (snd ?h)))"
    if "p \<in> set (delivered s) \<or> p \<in> set (snd (snd ?h))" for p
    using that
  proof
    assume "p \<in> set (delivered s)"
    then have "msg_id (snd (snd p)) \<in> set (map msg_id (messages s))"
      using inv by (simp add: log_inv_iff)
    then show ?thesis
      using handle_ids_mono [of "messages s" e "Some (sockets s)" r] by auto
  next
    assume "p \<in> set (snd (snd ?h))"
    then show ?thesis
      using handle_pushes_fresh [of p e "Some (sockets s)" "messages s" r] by simp
  qed
  then show ?thesis
    unfolding Http sys_step_Http log_inv_iff by auto
qed

lemma log_inv_run: "log_inv s \<Longrightarrow> log_inv (run s evs)"
  by (induction evs arbitrary: s) (simp_all add: run_Nil run_Cons log_inv_step)

lemma log_inv_init: "log_inv init_sys"
  by (simp add: log_inv_def init_sys_def)

lemma step_keeps_old:
  assumes "i \<in> set (map msg_id (messages s))"
  shows "i \<in> set (map msg_id (messages (sys_step s ev))) \<and>
         filter (\<lambda>p. msg_id (snd (snd p)) = i) (delivered (sys_step s ev))
           = filter (\<lambda>p. msg_id (snd (snd p)) = i) (delivered s)"
proof (cases ev)
  case (Sockets io)
  with assms show ?thesis by simp
next
  case (Http e r)
  let ?h = "handle e (Some (sockets s)) (messages s) r"
  have a: "i \<in> set (map msg_id (fst (snd ?h)))"
    using assms handle_ids_mono [of "messages s" e "Some (sockets s)" r] by auto
  have "\<forall>p\<in>set (snd (snd ?h)). msg_id (snd (snd p)) \<noteq> i"
    using assms handle_pushes_fresh [of _ e "Some (sockets s)" "messages s" r] by metis
  then have b: "filter (\<lambda>p. msg_id (snd (snd p)) = i) (snd (snd ?h)) = []"
    by (simp add: filter_empty_conv)
  show ?thesis unfolding Http sys_step_Http using a b by simp
qed

lemma run_keeps_old:
  "i \<in> set (map msg_id (messages s)) \<Longrightarrow>
     filter (\<lambda>p. msg_id (snd (snd p)) = i) (delivered (run s evs))
       = filter (\<lambda>p. msg_id (snd (snd p)) = i) (delivered s)"
proof (induction evs arbitrary: s)
  case Nil
  then show ?case by (simp add: run_Nil)
next
  case (Cons ev evs)
  have "filter (\<lambda>p. msg_id (snd (snd p)) = i) (delivered (run (sys_step s ev) evs))
      = filter (\<lambda>p. msg_id (snd (snd p)) = i) (delivered (sys_step s ev))"
    using Cons.prems step_keeps_old by (intro Cons.IH) blast
  then show ?case using Cons.prems step_keeps_old by (simp add: run_Cons)
qed

subsection \<open>Broadcast records\<close>

lemma broadcast_inv_handle:
  assumes inv: "broadcast_inv db"
  shows "broadcast_inv (fst (snd (handle e io db r)))"
proof (cases r)
  case (PostSend b)
  with inv show ?thesis
    by (auto simp: post_send_def save_def broadcast_inv_def newMessage_def split: option.splits)
next
  case (GetAgent a q)
  with inv show ?thesis by (simp add: get_agent_def)
next
  case (PutRead i)
  from inv have "list_all (\<lambda>m. msg_type m \<noteq> JStr ''broadcast'' \<or> toCode m = JNull)
      (findByIdAndUpdate i (mark_read e) db)"
    unfolding broadcast_inv_def
    by (intro findByIdAndUpdate_inv) (simp_all add: mark_read_def)
  then have "broadcast_inv (findByIdAndUpdate i (mark_read e) db)"
    by (simp add: broadcast_inv_def)
  with PutRead inv show ?thesis by (simp add: put_read_def)
qed

lemma broadcast_inv_step: "broadcast_inv (messages s) \<Longrightarrow> broadcast_inv (messages (sys_step s ev))"
  by (cases ev) (simp_all add: case_prod_beta broadcast_inv_handle)

lemma broadcast_inv_run: "broadcast_inv (messages s) \<Longrightarrow> broadcast_inv (messages (run s evs))"
  by (induction evs arbitrary: s) (simp_all add: run_Nil run_Cons broadcast_inv_step)

subsection \<open>The inbox query\<close>

lemma sorted_desc: "sorted_wrt (\<lambda>x y. timestamp y \<le> timestamp x) (sort_desc ms)"
proof -
  have "sorted (map (\<lambda>m. - timestamp m) (sort_desc ms))"
    unfolding sort_desc_def by (rule sorted_sort_key)
  then show ?thesis by (simp add: sorted_map)
qed

lemma sorted_wrt_take_any: "sorted_wrt P xs \<Longrightarrow> sorted_wrt P (take n xs)"
  by (metis append_take_drop_id sorted_wrt_append)

lemma limit_docs_subset: "set (limit_docs l ms) \<subseteq> set ms"
  by (auto simp: limit_docs_def dest: in_set_takeD split: jsnum.splits if_splits)

lemma limit_docs_sorted: "sorted_wrt P ms \<Longrightarrow> sorted_wrt P (limit_docs l ms)"
  by (simp add: limit_docs_def sorted_wrt_take_any split: jsnum.splits)

lemma limit_docs_length: "0 < n \<Longrightarrow> int (length (limit_docs (Num n) ms)) \<le> n"
  by (simp add: limit_docs_def)

subsection \<open>Parsing\<close>

lemma parseInt_digit_one: "parseInt (Some [0x31]) = Num 1"
  by (simp add: parseInt_def is_space_def digit_of_def round_double_def)

lemma parseInt_digit_zero: "parseInt (Some [0x30]) = Num 0"
  by (simp add: parseInt_def is_space_def digit_of_def round_double_def)

lemma parseInt_absent: "parseInt None = NaN"
  by (simp add: parseInt_def)

lemma parseInt_no_break_space: "parseInt (Some [0xA0, 0x36, 0x30]) = Num 60"
  by (simp add: parseInt_def is_space_def digit_of_def round_double_def)

lemma parseInt_line_separator_hex: "parseInt (Some [0x2028, 0x2D, 0x30, 0x58, 0x31, 0x66, 0x7A]) = Num (- 31)"
  by (simp add: parseInt_def is_space_def digit_of_def round_double_def)

lemma bit_length_le: "bit_length n \<le> k \<longleftrightarrow> n < 2 ^ k"
proof (induction k arbitrary: n)
  case 0
  then show ?case by simp
next
  case (Suc k)
  have "n div 2 < 2 ^ k \<longleftrightarrow> n < 2 * 2 ^ k"
    by (simp add: div_less_iff_less_mult mult.commute)
  with Suc [of "n div 2"] show ?case by simp
qed

lemma round_double_exact: "n < 2 ^ 53 \<Longrightarrow> round_double n = Some n"
  using bit_length_le [of n 53] by (simp add: round_double_def del: bit_length.simps)

lemma parseInt_byte_order_mark: "parseInt (Some [0xFEFF, 0x3000, 0x2B, 0x34, 0x32, 0x20]) = Num 42"
  by (simp add: parseInt_def is_space_def digit_of_def round_double_def)

lemma limit_of_minus_zero: "limit_of (Some [0x2D, 0x30]) = Num 50"
  by (simp add: limit_of_def parseInt_def is_space_def digit_of_def round_double_def)

lemma round_double_tie_to_even:
  "round_double 9007199254740993 = Some 9007199254740992"
  "round_double 9007199254740995 = Some 9007199254740996"
  by (simp_all add: round_double_def Let_def)


subsection \<open>The example inputs\<close>

lemma ex_broadcast_ok:
  "body_type ex_broadcast = JStr ''broadcast''" "truthy (body_fromCode ex_broadcast)"
  "truthy (text_of ex_broadcast)" "text_of ex_broadcast = JStr ''shift ending''"
  "body_toCode ex_broadcast = JStr ''A200''"
  by (simp_all add: ex_broadcast_def text_of_def js_or_def)

lemma ex_direct_ok:
  "body_type ex_direct = JStr ''direct''" "truthy (body_fromCode ex_direct)"
  "truthy (text_of ex_direct)"
  by (simp_all add: ex_direct_def text_of_def js_or_def)

lemma ex_env_ok: "db_ok ex_env" "db_ok ex_env_later" "now ex_env_later = 2000"
  by (simp_all add: ex_env_def ex_env_later_def)

section \<open>Sending: validation and persistence failures\<close>

text \<open>
  C9. When \<open>fromCode\<close> is missing or empty, or both \<open>message\<close> and \<open>content\<close> are
  missing or empty, \<^verbatim>\<open>POST /send\<close> answers 400, the collection is unchanged and
  nothing is pushed.
\<close>

theorem C9_validation_error:
  assumes "\<not> truthy (body_fromCode b) \<or> (\<not> truthy (body_message b) \<and> \<not> truthy (body_content b))"
  shows "post_send e io db b = (Error 400 ''From code and message are required'', db, [])"
  using assms by (auto simp: post_send_def text_of_def js_or_def)

text \<open>C9 at a request with an empty \<open>fromCode\<close>, a recipient online and one stored record.\<close>

theorem C9_validation_error_witness:
  "\<not> truthy (body_fromCode ex_anonymous) \<and>
   post_send ex_env (Some [ex_recipient]) [ex_stored] ex_anonymous
     = (Error 400 ''From code and message are required'', [ex_stored], [])"
  using C9_validation_error [of ex_anonymous ex_env "Some [ex_recipient]" "[ex_stored]"]
  by (simp add: ex_anonymous_def)

text \<open>
  C3. When the insert of a valid send request fails, the sender gets the failure
  acknowledgment (500, \<^verbatim>\<open>Failed to send message\<close>), nothing is pushed, neither
  \<open>new_direct_message\<close> nor \<open>new_broadcast_message\<close>, and the collection is unchanged.
\<close>

theorem C3_insert_failure:
  assumes "truthy (body_fromCode b)" and "truthy (text_of b)"
    and "save e db (newMessage e b) = None"
  shows "post_send e io db b = (Error 500 ''Failed to send message'', db, [])"
  using assms by (simp add: post_send_def)

text \<open>C3 at a direct message whose recipient is online while the store is down.\<close>

theorem C3_insert_failure_witness:
  "truthy (body_fromCode ex_direct) \<and> truthy (text_of ex_direct) \<and>
   save ex_env_down [ex_stored] (newMessage ex_env_down ex_direct) = None \<and>
   post_send ex_env_down (Some [ex_recipient]) [ex_stored] ex_direct
     = (Error 500 ''Failed to send message'', [ex_stored], [])"
proof -
  have c: "save ex_env_down [ex_stored] (newMessage ex_env_down ex_direct) = None"
    by (simp add: save_def ex_env_down_def)
  show ?thesis
    using ex_direct_ok(2,3) c C3_insert_failure [OF ex_direct_ok(2,3) c] by simp
qed

section \<open>Sending: routing\<close>

text \<open>
  C1, as the code has it. A broadcast that is accepted and stored is pushed as
  \<open>new_broadcast_message\<close> once to every socket connected to the server at that moment,
  whatever its role, and to no other: in every run of the server, whatever connects,
  disconnects or is requested afterwards, the deliveries of that record are exactly those.
  A connection that registers after the broadcast never receives it.
\<close>

theorem C1_broadcast_to_connected:
  assumes "body_type b = JStr ''broadcast''"
    and "truthy (body_fromCode b)" and "truthy (text_of b)"
    and "db_ok e" and "new_id e \<notin> set (map msg_id (messages (run init_sys before)))"
  shows "filter (\<lambda>p. msg_id (snd (snd p)) = new_id e)
           (delivered (run init_sys (before @ Http e (PostSend b) # after)))
         = map (\<lambda>c. (sid c, new_broadcast_message, newMessage e b)) (sockets (run init_sys before))"
proof -
  let ?s = "run init_sys before"
  let ?s1 = "sys_step ?s (Http e (PostSend b))"
  let ?f = "\<lambda>p :: push. msg_id (snd (snd p)) = new_id e"
  let ?out = "io_emit (sockets ?s) new_broadcast_message (newMessage e b)"
  have ty: "type_of b = JStr ''broadcast''"
    using assms(1) by (rule type_of_given)
  have ps: "post_send e (Some (sockets ?s)) (messages ?s) b =
      (SendOk (new_id e), messages ?s @ [newMessage e b], ?out)"
    using post_send_accepted [OF assms(2,3,4,5)] ty by simp
  have "log_inv ?s" by (simp add: log_inv_run log_inv_init)
  then have old: "filter ?f (delivered ?s) = []"
    using assms(5) by (auto simp: log_inv_iff filter_empty_conv)
  have new: "filter ?f ?out = ?out"
    by (simp add: io_emit_def newMessage_id)
  have d1: "filter ?f (delivered ?s1) = ?out"
    using ps old new by simp
  have "new_id e \<in> set (map msg_id (messages ?s1))"
    using ps by (simp add: newMessage_id)
  then have "filter ?f (delivered (run ?s1 after)) = filter ?f (delivered ?s1)"
    by (rule run_keeps_old)
  moreover have "run init_sys (before @ Http e (PostSend b) # after) = run ?s1 after"
    by (simp add: run_append run_Cons)
  ultimately show ?thesis using d1 by (simp add: io_emit_def)
qed

text \<open>
  C1 at a run in which an agent and a supervisor are connected, the broadcast is sent,
  a third socket connects and a direct message is sent: the broadcast went to the first
  two sockets only.
\<close>

theorem C1_broadcast_to_connected_witness:
  "body_type ex_broadcast = JStr ''broadcast'' \<and> truthy (body_fromCode ex_broadcast) \<and>
   truthy (text_of ex_broadcast) \<and> db_ok ex_env \<and>
   new_id ex_env \<notin> set (map msg_id (messages (run init_sys [Sockets [ex_agent, ex_supervisor]]))) \<and>
   filter (\<lambda>p. msg_id (snd (snd p)) = new_id ex_env)
     (delivered (run init_sys ([Sockets [ex_agent, ex_supervisor]] @
        Http ex_env (PostSend ex_broadcast) #
        [Sockets [ex_agent, ex_supervisor, ex_recipient], Http ex_env_later (PostSend ex_direct)])))
   = [(1, new_broadcast_message, newMessage ex_env ex_broadcast),
      (2, new_broadcast_message, newMessage ex_env ex_broadcast)]"
proof -
  have 5: "new_id ex_env \<notin> set (map msg_id (messages (run init_sys [Sockets [ex_agent, ex_supervisor]])))"
    by (simp add: run_def init_sys_def)
  have 6: "sockets (run init_sys [Sockets [ex_agent, ex_supervisor]]) = [ex_agent, ex_supervisor]"
    by (simp add: run_def init_sys_def)
  have 7: "sid ex_agent = 1 \<and> sid ex_supervisor = 2"
    by (simp add: ex_agent_def ex_supervisor_def)
  show ?thesis
    using ex_broadcast_ok(1,2,3) ex_env_ok(1) 5
      C1_broadcast_to_connected [OF ex_broadcast_ok(1,2,3) ex_env_ok(1) 5,
        of "[Sockets [ex_agent, ex_supervisor, ex_recipient], Http ex_env_later (PostSend ex_direct)]"]
    by (simp only: 6 7 list.map simp_thms)
qed

text \<open>
  C1 as stated fails: with an agent (socket 1) and a supervisor (socket 2) connected, the
  broadcast is pushed to both, while the connections with the role \<open>agent\<close> are socket 1
  alone.
\<close>

theorem C1_role_counterexample:
  "map fst (snd (snd (post_send ex_env (Some [ex_agent, ex_supervisor]) [] ex_broadcast))) = [1, 2] \<and>
   spec_broadcast_targets [ex_agent, ex_supervisor] = [1] \<and>
   role ex_supervisor = Some Supervisor \<and> sid ex_supervisor = 2"
  by (simp add: post_send_def save_def ex_env_def ex_broadcast_def text_of_def js_or_def
       type_of_def js_default_def newMessage_def io_emit_def ex_agent_def ex_supervisor_def
       spec_broadcast_targets_def)

text \<open>
  C2. A valid direct message that the store accepts is stored as one record with the
  given \<open>toCode\<close> and the type \<open>direct\<close>, and it is pushed as \<open>new_direct_message\<close>,
  carrying that record, once to each connected socket that is in the room \<open>toCode\<close>, in
  their order, and to no other socket. So when no connected socket is in that room (the
  recipient is offline) the record is stored and nothing is pushed, and when the
  recipient is online each of its sockets gets the push.
\<close>

theorem C2_direct_routing:
  assumes "body_type b = JStr ''direct''"
    and "truthy (body_fromCode b)" and "truthy (text_of b)"
    and "db_ok e" and "new_id e \<notin> set (map msg_id db)"
  shows "\<exists>ps. post_send e (Some srv) db b = (SendOk (new_id e), db @ [newMessage e b], ps) \<and>
     ps = map (\<lambda>c. (sid c, new_direct_message, newMessage e b))
            (filter (\<lambda>c. body_toCode b \<in> set (rooms c)) srv) \<and>
     toCode (newMessage e b) = body_toCode b \<and> msg_type (newMessage e b) = JStr ''direct'' \<and>
     ((\<forall>c\<in>set srv. body_toCode b \<notin> set (rooms c)) \<longrightarrow> ps = []) \<and>
     (\<forall>c\<in>set srv. body_toCode b \<in> set (rooms c) \<longrightarrow>
        (sid c, new_direct_message, newMessage e b) \<in> set ps) \<and>
     (\<forall>p\<in>set ps. fst (snd p) = new_direct_message \<and> snd (snd p) = newMessage e b \<and>
        (\<exists>c\<in>set srv. sid c = fst p \<and> body_toCode b \<in> set (rooms c)))"
proof -
  have ty: "type_of b = JStr ''direct''"
    using assms(1) by (rule type_of_given)
  let ?ps = "map (\<lambda>c. (sid c, new_direct_message, newMessage e b))
            (filter (\<lambda>c. body_toCode b \<in> set (rooms c)) srv)"
  have 1: "post_send e (Some srv) db b = (SendOk (new_id e), db @ [newMessage e b], ?ps)"
    using post_send_accepted [OF assms(2,3,4,5)] ty by (simp add: io_to_emit_def)
  have 2: "toCode (newMessage e b) = body_toCode b \<and> msg_type (newMessage e b) = JStr ''direct''"
    using ty by (simp add: newMessage_def)
  have 3: "(\<forall>c\<in>set srv. body_toCode b \<notin> set (rooms c)) \<longrightarrow> ?ps = []"
    by (simp add: filter_empty_conv)
  have 4: "\<forall>c\<in>set srv. body_toCode b \<in> set (rooms c) \<longrightarrow>
        (sid c, new_direct_message, newMessage e b) \<in> set ?ps"
    by auto
  have 5: "\<forall>p\<in>set ?ps. fst (snd p) = new_direct_message \<and> snd (snd p) = newMessage e b \<and>
        (\<exists>c\<in>set srv. sid c = fst p \<and> body_toCode b \<in> set (rooms c))"
    by auto
  from 1 2 3 4 5 show ?thesis by blast
qed

text \<open>
  C2 at a direct message to \<open>A200\<close>, first while \<open>A300\<close>, a supervisor and \<open>A200\<close> are
  connected: the record is stored and pushed to the socket of \<open>A200\<close> alone; then while
  only \<open>A300\<close> and the supervisor are connected: the record is stored and nothing is
  pushed.
\<close>

theorem C2_direct_routing_witness:
  "body_type ex_direct = JStr ''direct'' \<and> truthy (body_fromCode ex_direct) \<and>
   truthy (text_of ex_direct) \<and> db_ok ex_env \<and> new_id ex_env \<notin> set (map msg_id [ex_stored]) \<and>
   post_send ex_env (Some [ex_agent, ex_supervisor, ex_recipient]) [ex_stored] ex_direct
     = (SendOk (new_id ex_env), [ex_stored] @ [newMessage ex_env ex_direct],
        [(3, new_direct_message, newMessage ex_env ex_direct)]) \<and>
   post_send ex_env (Some [ex_agent, ex_supervisor]) [ex_stored] ex_direct
     = (SendOk (new_id ex_env), [ex_stored] @ [newMessage ex_env ex_direct], [])"
proof -
  have 5: "new_id ex_env \<notin> set (map msg_id [ex_stored])"
    by (simp add: ex_env_def ex_stored_def)
  have 6: "map (\<lambda>c. (sid c, new_direct_message, newMessage ex_env ex_direct))
        (filter (\<lambda>c. body_toCode ex_direct \<in> set (rooms c)) [ex_agent, ex_supervisor, ex_recipient])
      = [(3, new_direct_message, newMessage ex_env ex_direct)]"
    by (simp add: ex_agent_def ex_supervisor_def ex_recipient_def ex_direct_def)
  have 7: "map (\<lambda>c. (sid c, new_direct_message, newMessage ex_env ex_direct))
        (filter (\<lambda>c. body_toCode ex_direct \<in> set (rooms c)) [ex_agent, ex_supervisor])
      = []"
    by (simp add: ex_agent_def ex_supervisor_def ex_direct_def)
  from C2_direct_routing [OF ex_direct_ok ex_env_ok(1) 5, of "[ex_agent, ex_supervisor, ex_recipient]"]
  have on: "post_send ex_env (Some [ex_agent, ex_supervisor, ex_recipient]) [ex_stored] ex_direct
     = (SendOk (new_id ex_env), [ex_stored] @ [newMessage ex_env ex_direct],
        [(3, new_direct_message, newMessage ex_env ex_direct)])"
    unfolding 6 by blast
  from C2_direct_routing [OF ex_direct_ok ex_env_ok(1) 5, of "[ex_agent, ex_supervisor]"]
  have off: "post_send ex_env (Some [ex_agent, ex_supervisor]) [ex_stored] ex_direct
     = (SendOk (new_id ex_env), [ex_stored] @ [newMessage ex_env ex_direct], [])"
    unfolding 7 by blast
  from ex_direct_ok ex_env_ok(1) 5 on off show ?thesis by (intro conjI)
qed

text \<open>
  C7. A valid broadcast that the store accepts adds exactly one record to the
  collection, and every push it causes is a \<open>new_broadcast_message\<close> carrying that same
  record, so the same content and the same message id, which is also the id acknowledged
  to the sender.
\<close>

theorem C7_broadcast_one_record:
  assumes "body_type b = JStr ''broadcast''"
    and "truthy (body_fromCode b)" and "truthy (text_of b)"
    and "db_ok e" and "new_id e \<notin> set (map msg_id db)"
  shows "\<exists>ps. post_send e (Some srv) db b = (SendOk (new_id e), db @ [newMessage e b], ps) \<and>
     map fst ps = map sid srv \<and>
     (\<forall>p\<in>set ps. fst (snd p) = new_broadcast_message \<and> snd (snd p) = newMessage e b) \<and>
     msg_id (newMessage e b) = new_id e \<and> content (newMessage e b) = text_of b"
proof -
  have ty: "type_of b = JStr ''broadcast''"
    using assms(1) by (rule type_of_given)
  let ?ps = "io_emit srv new_broadcast_message (newMessage e b)"
  have 1: "post_send e (Some srv) db b = (SendOk (new_id e), db @ [newMessage e b], ?ps)"
    using post_send_accepted [OF assms(2,3,4,5)] ty by simp
  have 2: "map fst ?ps = map sid srv" by (simp add: io_emit_def)
  have 3: "\<forall>p\<in>set ?ps. fst (snd p) = new_broadcast_message \<and> snd (snd p) = newMessage e b"
    by (auto simp: io_emit_def)
  have 4: "msg_id (newMessage e b) = new_id e \<and> content (newMessage e b) = text_of b"
    by (simp add: newMessage_def)
  from 1 2 3 4 show ?thesis by blast
qed

text \<open>C7 at the broadcast \<open>shift ending\<close> with two agents connected.\<close>

theorem C7_broadcast_one_record_witness:
  "body_type ex_broadcast = JStr ''broadcast'' \<and> truthy (body_fromCode ex_broadcast) \<and>
   truthy (text_of ex_broadcast) \<and> db_ok ex_env \<and> new_id ex_env \<notin> set (map msg_id [ex_stored]) \<and>
   fst (snd (post_send ex_env (Some [ex_agent, ex_recipient]) [ex_stored] ex_broadcast))
     = [ex_stored, newMessage ex_env ex_broadcast] \<and>
   map fst (snd (snd (post_send ex_env (Some [ex_agent, ex_recipient]) [ex_stored] ex_broadcast)))
     = [1, 3] \<and>
   content (newMessage ex_env ex_broadcast) = JStr ''shift ending''"
proof -
  have 5: "new_id ex_env \<notin> set (map msg_id [ex_stored])"
    by (simp add: ex_env_def ex_stored_def)
  have 6: "map sid [ex_agent, ex_recipient] = [1, 3]"
    by (simp add: ex_agent_def ex_recipient_def)
  from C7_broadcast_one_record [OF ex_broadcast_ok(1,2,3) ex_env_ok(1) 5, of "[ex_agent, ex_recipient]"]
  obtain ps where a: "post_send ex_env (Some [ex_agent, ex_recipient]) [ex_stored] ex_broadcast
        = (SendOk (new_id ex_env), [ex_stored] @ [newMessage ex_env ex_broadcast], ps)"
    and b: "map fst ps = map sid [ex_agent, ex_recipient]"
    and c: "content (newMessage ex_env ex_broadcast) = text_of ex_broadcast"
    by blast
  from b have b': "map fst ps = [1, 3]" by (simp only: 6)
  from c have c': "content (newMessage ex_env ex_broadcast) = JStr ''shift ending''"
    by (simp only: ex_broadcast_ok(4))
  from a have d: "fst (snd (post_send ex_env (Some [ex_agent, ex_recipient]) [ex_stored] ex_broadcast))
     = [ex_stored, newMessage ex_env ex_broadcast]" by simp
  from a b' have e: "map fst (snd (snd (post_send ex_env (Some [ex_agent, ex_recipient]) [ex_stored] ex_broadcast)))
     = [1, 3]" by simp
  from ex_broadcast_ok(1,2,3) ex_env_ok(1) 5 d e c' show ?thesis by (intro conjI)
qed

text \<open>
  C8. For a send request of type \<open>broadcast\<close> the record built has \<open>toCode\<close> null
  whatever \<open>toCode\<close> the request supplied, and the request stores that record or nothing;
  so in every run of the server every stored record of type \<open>broadcast\<close> has \<open>toCode\<close>
  null.
\<close>

theorem C8_broadcast_toCode_null:
  "(body_type b = JStr ''broadcast'' \<longrightarrow>
      toCode (newMessage e b) = JNull \<and>
      (fst (snd (post_send e io db b)) = db \<or> fst (snd (post_send e io db b)) = db @ [newMessage e b])) \<and>
   broadcast_inv (messages (run init_sys evs))"
proof -
  have "broadcast_inv (messages init_sys)" by (simp add: broadcast_inv_def init_sys_def)
  then have "broadcast_inv (messages (run init_sys evs))" by (rule broadcast_inv_run)
  moreover have "body_type b = JStr ''broadcast'' \<longrightarrow> toCode (newMessage e b) = JNull"
    by (simp add: newMessage_def type_of_def js_default_def)
  ultimately show ?thesis using post_send_store [of e io db b] by simp
qed

text \<open>C8 at a broadcast whose request names the recipient \<open>A200\<close>.\<close>

theorem C8_broadcast_toCode_null_witness:
  "body_type ex_broadcast = JStr ''broadcast'' \<and> body_toCode ex_broadcast = JStr ''A200'' \<and>
   toCode (newMessage ex_env ex_broadcast) = JNull \<and>
   messages (run init_sys [Http ex_env (PostSend ex_broadcast)]) = [newMessage ex_env ex_broadcast] \<and>
   broadcast_inv (messages (run init_sys [Http ex_env (PostSend ex_broadcast)]))"
proof -
  have 3: "messages (run init_sys [Http ex_env (PostSend ex_broadcast)]) = [newMessage ex_env ex_broadcast]"
    by (simp add: run_def init_sys_def post_send_def save_def ex_env_def ex_broadcast_def
          text_of_def js_or_def)
  show ?thesis
    using ex_broadcast_ok(1,5) 3
      C8_broadcast_toCode_null [of ex_broadcast ex_env None "[]" "[Http ex_env (PostSend ex_broadcast)]"]
    by simp
qed

text \<open>
  C10. A send request without a \<open>type\<close> is treated as direct: the record built has the
  type \<open>direct\<close> and the supplied \<open>toCode\<close>, the request stores that record or nothing,
  and every push is a \<open>new_direct_message\<close> carrying that record to a socket in the room
  \<open>toCode\<close>, never a \<open>new_broadcast_message\<close>.
\<close>

theorem C10_type_defaults_to_direct:
  assumes "body_type b = JUndefined"
  shows "msg_type (newMessage e b) = JStr ''direct'' \<and> toCode (newMessage e b) = body_toCode b \<and>
     (fst (snd (post_send e io db b)) = db \<or>
      fst (snd (post_send e io db b)) = db @ [newMessage e b]) \<and>
     (\<forall>p\<in>set (snd (snd (post_send e io db b))).
        fst (snd p) = new_direct_message \<and> snd (snd p) = newMessage e b \<and>
        (\<exists>srv. io = Some srv \<and> (\<exists>c\<in>set srv. sid c = fst p \<and> body_toCode b \<in> set (rooms c))))"
proof -
  have ty: "type_of b = JStr ''direct''"
    using assms by (rule type_of_omitted)
  then have 1: "msg_type (newMessage e b) = JStr ''direct'' \<and> toCode (newMessage e b) = body_toCode b"
    by (simp add: newMessage_def)
  have 3: "\<forall>p\<in>set (snd (snd (post_send e io db b))).
        fst (snd p) = new_direct_message \<and> snd (snd p) = newMessage e b \<and>
        (\<exists>srv. io = Some srv \<and> (\<exists>c\<in>set srv. sid c = fst p \<and> body_toCode b \<in> set (rooms c)))"
    using ty by (auto simp: post_send_def save_def io_to_emit_def split: option.splits if_splits)
  from 1 3 post_send_store [of e io db b] show ?thesis by blast
qed

text \<open>C10 at a request without a type, to \<open>A200\<close>, who is online on socket 3.\<close>

theorem C10_type_defaults_to_direct_witness:
  "body_type ex_untyped = JUndefined \<and>
   msg_type (newMessage ex_env ex_untyped) = JStr ''direct'' \<and>
   toCode (newMessage ex_env ex_untyped) = JStr ''A200'' \<and>
   post_send ex_env (Some [ex_agent, ex_recipient]) [] ex_untyped
     = (SendOk 7, [newMessage ex_env ex_untyped], [(3, new_direct_message, newMessage ex_env ex_untyped)])"
proof -
  have 1: "body_type ex_untyped = JUndefined" by (simp add: ex_untyped_def)
  have 2: "body_toCode ex_untyped = JStr ''A200''" by (simp add: ex_untyped_def)
  have 3: "post_send ex_env (Some [ex_agent, ex_recipient]) [] ex_untyped
     = (SendOk 7, [newMessage ex_env ex_untyped], [(3, new_direct_message, newMessage ex_env ex_untyped)])"
    by (simp add: post_send_def save_def text_of_def type_of_def js_or_def js_default_def
          io_to_emit_def newMessage_id)
       (simp add: ex_env_def ex_untyped_def ex_agent_def ex_recipient_def)
  show ?thesis
    using 1 3 C10_type_defaults_to_direct [OF 1, of ex_env "Some [ex_agent, ex_recipient]" "[]"]
    unfolding 2 by simp
qed

section \<open>Marking a message read\<close>

text \<open>
  C4, as the code has it. When the store serves both calls, marking a stored message
  read twice does not fail: the second call answers success, \<open>isRead\<close> is still true,
  and \<open>readAt\<close> is the time of the second call; the collection is the one a single
  mark at that time would have given.
\<close>

theorem C4_mark_read_twice:
  assumes "db_ok e1" and "db_ok e2"
    and "find (\<lambda>x. msg_id x = i) db = Some m"
  shows "fst (put_read e2 (fst (snd (put_read e1 db i))) i) = Success \<and>
         find (\<lambda>x. msg_id x = i) (fst (snd (put_read e2 (fst (snd (put_read e1 db i))) i)))
           = Some (m\<lparr>isRead := True, readAt := Some (now e2)\<rparr>) \<and>
         put_read e2 (fst (snd (put_read e1 db i))) i = put_read e2 db i"
proof -
  have i: "msg_id m = i" using assms(3) by (induction db) (auto split: if_splits)
  have "find (\<lambda>x. msg_id x = i) (findByIdAndUpdate i (mark_read e2) db) = Some (mark_read e2 m)"
    using assms(3) i by (intro findByIdAndUpdate_find) (simp_all add: mark_read_id)
  then show ?thesis using assms(1,2)
    by (simp add: put_read_def findByIdAndUpdate_twice mark_read_id mark_read_twice)
       (simp add: mark_read_def)
qed

text \<open>C4 at a collection of two records, the second marked at time 1000 and again at 2000.\<close>

theorem C4_mark_read_twice_witness:
  "db_ok ex_env \<and> db_ok ex_env_later \<and>
   find (\<lambda>x. msg_id x = 5) [ex_older, ex_stored] = Some ex_stored \<and>
   fst (put_read ex_env_later (fst (snd (put_read ex_env [ex_older, ex_stored] 5))) 5) = Success \<and>
   find (\<lambda>x. msg_id x = 5)
     (fst (snd (put_read ex_env_later (fst (snd (put_read ex_env [ex_older, ex_stored] 5))) 5)))
     = Some (ex_stored\<lparr>isRead := True, readAt := Some 2000\<rparr>)"
proof -
  have 3: "find (\<lambda>x. msg_id x = 5) [ex_older, ex_stored] = Some ex_stored"
    by (simp add: ex_older_def ex_stored_def)
  from C4_mark_read_twice [OF ex_env_ok(1,2) 3]
  have a: "fst (put_read ex_env_later (fst (snd (put_read ex_env [ex_older, ex_stored] 5))) 5) = Success"
    and b: "find (\<lambda>x. msg_id x = 5)
     (fst (snd (put_read ex_env_later (fst (snd (put_read ex_env [ex_older, ex_stored] 5))) 5)))
     = Some (ex_stored\<lparr>isRead := True, readAt := Some (now ex_env_later)\<rparr>)"
    by blast+
  from ex_env_ok(1,2) 3 a b show ?thesis unfolding ex_env_ok(3) by blast
qed

text \<open>
  C4 as stated fails: after a mark at time 1000 the record has \<open>readAt = 1000\<close>, and
  after a second mark at time 2000 it has \<open>readAt = 2000\<close>, not the time of the first mark.
\<close>

theorem C4_readAt_counterexample:
  "map readAt (fst (snd (put_read ex_env [ex_older, ex_stored] 5))) = [None, Some 1000] \<and>
   map readAt (fst (snd (put_read ex_env_later (fst (snd (put_read ex_env [ex_older, ex_stored] 5))) 5)))
     = [None, Some 2000]"
  by (simp add: put_read_def ex_env_def ex_env_later_def ex_older_def ex_stored_def mark_read_def)

text \<open>
  C5. Every request keeps the stored records: after any of the three routes each record
  stored before is still in the collection, at its place, with the same id, fromCode,
  toCode, content, type, priority and timestamp; marking read changes no more than
  \<open>isRead\<close> and \<open>readAt\<close> and leaves the number of records as it was; and the same holds
  from any state of the server to any later one, so no record is ever deleted.
\<close>

theorem C5_records_kept:
  "kept db (fst (snd (handle e io db r))) \<and>
   length (fst (snd (put_read e db i))) = length db \<and>
   kept (messages s) (messages (run s evs))"
  using handle_frame handle_length kept_run
  by (simp add: kept_def put_read_def findByIdAndUpdate_length)

text \<open>C5 at marking the second of two stored records read.\<close>

theorem C5_records_kept_witness:
  "kept [ex_older, ex_stored] (fst (snd (handle ex_env None [ex_older, ex_stored] (PutRead 5)))) \<and>
   fst (snd (handle ex_env None [ex_older, ex_stored] (PutRead 5)))
     = [ex_older, ex_stored\<lparr>isRead := True, readAt := Some 1000\<rparr>]"
proof -
  have "fst (snd (handle ex_env None [ex_older, ex_stored] (PutRead 5)))
     = [ex_older, ex_stored\<lparr>isRead := True, readAt := Some 1000\<rparr>]"
    by (simp add: put_read_def mark_read_def ex_env_def ex_older_def ex_stored_def)
  then show ?thesis
    using C5_records_kept [of "[ex_older, ex_stored]" ex_env None "PutRead 5" 5 init_sys "[]"]
    by simp
qed

section \<open>The inbox\<close>

text \<open>
  C6, as the code has it. When the store serves the query, the inbox of an identity is a
  sequence of stored records ordered newest first, each addressed to that identity or of
  type \<open>broadcast\<close>; its length is at most the limit when the \<open>limit\<close> parameter parses
  to a positive integer, and at most 50 when the parameter is absent, not a number, or
  zero.
\<close>

theorem C6_inbox:
  assumes "db_ok e"
  shows "\<exists>ms. get_agent e db agentCode q = (Messages ms, db, []) \<and>
     sorted_wrt (\<lambda>x y. timestamp y \<le> timestamp x) ms \<and>
     (\<forall>m\<in>set ms. m \<in> set db \<and> (toCode m = JStr agentCode \<or> msg_type m = JStr ''broadcast'')) \<and>
     (\<forall>n. parseInt q = Num n \<and> 0 < n \<longrightarrow> int (length ms) \<le> n) \<and>
     (parseInt q = NaN \<or> parseInt q = Num 0 \<longrightarrow> length ms \<le> 50)"
proof -
  let ?ms = "limit_docs (limit_of q) (sort_desc (filter (inbox_match agentCode) db))"
  have 1: "get_agent e db agentCode q = (Messages ?ms, db, [])"
    using assms by (simp add: get_agent_def)
  have 2: "sorted_wrt (\<lambda>x y. timestamp y \<le> timestamp x) ?ms"
    by (simp add: limit_docs_sorted sorted_desc)
  have "set ?ms \<subseteq> set (sort_desc (filter (inbox_match agentCode) db))"
    by (rule limit_docs_subset)
  then have 3: "\<forall>m\<in>set ?ms. m \<in> set db \<and> (toCode m = JStr agentCode \<or> msg_type m = JStr ''broadcast'')"
    by (auto simp: sort_desc_def inbox_match_def)
  have 4: "\<forall>n. parseInt q = Num n \<and> 0 < n \<longrightarrow> int (length ?ms) \<le> n"
    by (auto simp: limit_of_def limit_docs_length)
  have 5: "parseInt q = NaN \<or> parseInt q = Num 0 \<longrightarrow> length ?ms \<le> 50"
    by (auto simp: limit_of_def limit_docs_def)
  from 1 2 3 4 5 show ?thesis by blast
qed

text \<open>
  C6 at the inbox of \<open>A200\<close> with \<^verbatim>\<open>limit=1\<close>, over a direct message to \<open>A200\<close> and an
  older broadcast: the direct message alone is returned.
\<close>

theorem C6_inbox_witness:
  "db_ok ex_env \<and> parseInt (Some [0x31]) = Num 1 \<and>
   get_agent ex_env [ex_older, ex_stored] ''A200'' (Some [0x31])
     = (Messages [ex_stored], [ex_older, ex_stored], []) \<and>
   (\<exists>ms. get_agent ex_env [ex_older, ex_stored] ''A200'' (Some [0x31])
        = (Messages ms, [ex_older, ex_stored], []) \<and> int (length ms) \<le> 1)"
proof -
  note 2 = parseInt_digit_one
  have 3: "get_agent ex_env [ex_older, ex_stored] ''A200'' (Some [0x31])
     = (Messages [ex_stored], [ex_older, ex_stored], [])"
    by (simp add: get_agent_def ex_env_ok(1) limit_of_def 2 sort_desc_def limit_docs_def
          inbox_match_def ex_older_def ex_stored_def)
  from C6_inbox [OF ex_env_ok(1), of "[ex_older, ex_stored]" "''A200''" "Some [0x31]"]
  obtain ms where a: "get_agent ex_env [ex_older, ex_stored] ''A200'' (Some [0x31])
        = (Messages ms, [ex_older, ex_stored], [])"
    and b: "\<forall>n. parseInt (Some [0x31]) = Num n \<and> 0 < n \<longrightarrow> int (length ms) \<le> n"
    by blast
  from b 2 have "int (length ms) \<le> 1" by simp
  with a ex_env_ok(1) 2 3 show ?thesis by blast
qed

text \<open>
  C6 as stated fails at the limit 0: the parameter \<^verbatim>\<open>limit=0\<close> parses to 0, and the
  inbox of \<open>A200\<close> is returned with its two records.
\<close>

theorem C6_limit_zero_counterexample:
  "parseInt (Some [0x30]) = Num 0 \<and>
   get_agent ex_env [ex_older, ex_stored] ''A200'' (Some [0x30])
     = (Messages [ex_stored, ex_older], [ex_older, ex_stored], [])"
  by (simp add: get_agent_def ex_env_def limit_of_def parseInt_digit_zero
        sort_desc_def limit_docs_def inbox_match_def ex_older_def ex_stored_def)

end
